theory Spec2Isabelle
  imports Complex_Main
begin

section \<open>Leaky integrate-and-fire phase locking\<close>

text \<open>
  The script \<^verbatim>\<open>neurons/Romain_2004_LIF_phase_locking.py\<close> simulates a population of
  leaky integrate-and-fire units. Its arrays are one-dimensional; they are lists here,
  and their entries are real numbers: the rounding of the array library's floating-point
  numbers is not part of this development.
\<close>

subsection \<open>Arrays\<close>

type_synonym vec = "real list"

datatype error = ShapeError

text \<open>\<^verbatim>\<open>bm.zeros(size)\<close> for an integer size.\<close>

definition zeros :: "nat \<Rightarrow> vec" where
  "zeros n = replicate n 0"

text \<open>
  \<^verbatim>\<open>bm.linspace(start, stop, num)\<close>: \<open>num\<close> evenly spaced points, both ends
  included; a single point is \<open>start\<close>.
\<close>

definition linspace :: "real \<Rightarrow> real \<Rightarrow> nat \<Rightarrow> vec" where
  "linspace start stop n =
     (if n = 1 then [start]
      else map (\<lambda>i. start + real i * ((stop - start) / real (n - 1))) [0..<n])"

text \<open>
  An elementwise operation on two one-dimensional arrays: the lengths agree, or the
  array of length one is stretched along the other; any other pair of lengths is an
  error of the array library.
\<close>

definition broadcast2 :: "('a \<Rightarrow> 'b \<Rightarrow> 'c) \<Rightarrow> 'a list \<Rightarrow> 'b list \<Rightarrow> error + 'c list" where
  "broadcast2 f xs ys =
     (if length xs = length ys then Inr (map2 f xs ys)
      else if length xs = 1 then Inr (map (f (hd xs)) ys)
      else if length ys = 1 then Inr (map (\<lambda>x. f x (hd ys)) xs)
      else Inl ShapeError)"

text \<open>\<^verbatim>\<open>bm.asarray(b, dtype=bm.float_)\<close> on an array of booleans.\<close>

definition asarray_float :: "bool list \<Rightarrow> vec" where
  "asarray_float bs = map (\<lambda>b. if b then 1 else 0) bs"

text \<open>\<^verbatim>\<open>bm.where(cond, x, ys)\<close> with a scalar \<open>x\<close>.\<close>

definition where_scalar :: "bool list \<Rightarrow> real \<Rightarrow> vec \<Rightarrow> error + vec" where
  "where_scalar cond x ys = broadcast2 (\<lambda>c y. if c then x else y) cond ys"

text \<open>
  Modelled from the spec: \<^verbatim>\<open>Variable.update\<close> of the numerical library (not under src/)
  overwrites a state collection in place; the collection keeps its length, so a value of
  another length is rejected.
\<close>

definition Variable_update :: "vec \<Rightarrow> vec \<Rightarrow> error + vec" where
  "Variable_update old new = (if length new = length old then Inr new else Inl ShapeError)"

subsection \<open>Parameters\<close>

text \<open>
  The module-level names the class reads (\<open>num\<close>, \<open>tau\<close>, \<open>Vth\<close>, \<open>Vr\<close>, \<open>inputs\<close>),
  and \<open>dt\<close>, the step size of the numerical library that the integrator uses when the
  caller passes none.
\<close>

record globals =
  num :: nat
  tau :: real
  Vth :: real
  Vr :: real
  inputs :: vec
  dt :: real

text \<open>
  The parameter cell of the script for a population of \<open>n\<close> units. The script does not
  set a step size: \<open>dt\<close> is the default of the numerical library, 0.1.
\<close>

definition parameters :: "nat \<Rightarrow> globals" where
  "parameters n =
     \<lparr>num = n, tau = 100, Vth = 1, Vr = 0, inputs = linspace 2 4 n, dt = 1 / 10\<rparr>"

text \<open>The script sets \<open>num = 2000\<close>.\<close>

definition script :: globals where
  "script = parameters 2000"

subsection \<open>The neuron group\<close>

record LIF =
  V :: vec
  spike :: vec
  integral :: "vec \<Rightarrow> real \<Rightarrow> error + vec"

text \<open>
  \<^verbatim>\<open>(-V + inputs + 2 * bm.sin(2 * bm.pi * t / tau)) / tau\<close>: the oscillation period
  and the time constant are the one name \<open>tau\<close>.
\<close>

definition derivative :: "globals \<Rightarrow> vec \<Rightarrow> real \<Rightarrow> error + vec" where
  "derivative g V0 t =
     (case broadcast2 (+) (map uminus V0) (inputs g) of
        Inl e \<Rightarrow> Inl e
      | Inr a \<Rightarrow> Inr (map (\<lambda>x. (x + 2 * sin (2 * pi * t / tau g)) / tau g) a))"

text \<open>
  Modelled from the spec: \<^verbatim>\<open>bp.odeint\<close> of the numerical library (not under src/) turns
  a right-hand side into a fixed-step integrator; the scheme is explicit Euler,
  \<open>V + dt * f(V, t)\<close>.
\<close>

definition odeint :: "real \<Rightarrow> (vec \<Rightarrow> real \<Rightarrow> error + vec) \<Rightarrow> vec \<Rightarrow> real \<Rightarrow> error + vec" where
  "odeint h f V0 t =
     (case f V0 t of
        Inl e \<Rightarrow> Inl e
      | Inr dV \<Rightarrow> broadcast2 (+) V0 (map (\<lambda>d. h * d) dV))"

definition LIF_init :: "globals \<Rightarrow> nat \<Rightarrow> LIF" where
  "LIF_init g sz =
     \<lparr>V = zeros sz, spike = zeros sz, integral = odeint (dt g) (derivative g)\<rparr>"

text \<open>
  The state of the program: the module-level names and the group. A call of a method
  takes the state and returns the state it leaves.
\<close>

record program =
  env :: globals
  group :: LIF

text \<open>\<^verbatim>\<open>group = LIF(num)\<close> after the parameter cell.\<close>

definition start :: "globals \<Rightarrow> program" where
  "start g = \<lparr>env = g, group = LIF_init g (num g)\<rparr>"

text \<open>
  \<^verbatim>\<open>update(self, _t, _dt)\<close>. The argument \<open>_dt\<close> (here \<open>dt_arg\<close>) is not read.
  An error of one of the three statements ends the call.
\<close>

definition update :: "program \<Rightarrow> real \<Rightarrow> real \<Rightarrow> error + program" where
  "update p t dt_arg =
     (case integral (group p) (V (group p)) t of
        Inl e \<Rightarrow> Inl e
      | Inr V1 \<Rightarrow>
          (case Variable_update (spike (group p))
                  (asarray_float (map (\<lambda>v. Vth (env p) \<le> v) V1)) of
             Inl e \<Rightarrow> Inl e
           | Inr spike1 \<Rightarrow>
               (case where_scalar (map (\<lambda>s. 0 < s) spike1) (Vr (env p)) V1 of
                  Inl e \<Rightarrow> Inl e
                | Inr V2 \<Rightarrow>
                    (case Variable_update (V (group p)) V2 of
                       Inl e \<Rightarrow> Inl e
                     | Inr V3 \<Rightarrow> Inr (p\<lparr>group := (group p)\<lparr>spike := spike1, V := V3\<rparr>\<rparr>)))))"

subsection \<open>The driver and the analysis\<close>

type_synonym trace = "(real \<times> vec) list"

text \<open>
  Modelled from the spec: the simulation driver of the numerical library (not under
  src/) calls the update rule once per step, at the times \<open>0, dt, 2 dt, ...\<close>, and
  records the spike indicator of each step into a trace keyed by time.
\<close>

fun run :: "program \<Rightarrow> nat \<Rightarrow> error + program \<times> trace" where
  "run p 0 = Inr (p, [])"
| "run p (Suc n) =
     (case run p n of
        Inl e \<Rightarrow> Inl e
      | Inr (q, tr) \<Rightarrow>
          (case update q (real n * dt (env q)) (dt (env q)) of
             Inl e \<Rightarrow> Inl e
           | Inr q' \<Rightarrow> Inr (q', tr @ [(real n * dt (env q), spike (group q'))])))"

text \<open>
  Modelled from the spec: \<^verbatim>\<open>bp.measure.raster_plot\<close> of the numerical library (not
  under src/) extracts the (unit index, spike time) events of a trace, step by step.
\<close>

definition raster_plot :: "trace \<Rightarrow> (nat \<times> real) list" where
  "raster_plot tr =
     concat (map (\<lambda>(t, sp). map (\<lambda>i. (i, t)) (filter (\<lambda>i. 0 < sp ! i) [0..<length sp])) tr)"

text \<open>
  The remainder \<^verbatim>\<open>a % b\<close> of the array library on numbers that are not integers: it
  has the sign of \<open>b\<close>.
\<close>

definition remainder :: "real \<Rightarrow> real \<Rightarrow> real" where
  "remainder a b = a - b * of_int \<lfloor>a / b\<rfloor>"

text \<open>\<^verbatim>\<open>spike_phases = (times % tau) / tau\<close>.\<close>

definition spike_phases :: "globals \<Rightarrow> real list \<Rightarrow> real list" where
  "spike_phases g ts = map (\<lambda>t. remainder t (tau g) / tau g) ts"

text \<open>The states the group goes through: any number of updates, at any times.\<close>

inductive reachable :: "program \<Rightarrow> program \<Rightarrow> bool" for p0 :: program where
  initial: "reachable p0 p0"
| step: "reachable p0 p \<Longrightarrow> update p t dt_arg = Inr p' \<Longrightarrow> reachable p0 p'"

text \<open>
  The end-to-end scenario of the specification: one unit, drive 3, time constant and
  period 100, threshold 1, reset 0, step 0.1.
\<close>

definition scenario :: globals where
  "scenario = \<lparr>num = 1, tau = 100, Vth = 1, Vr = 0, inputs = [3], dt = 1 / 10\<rparr>"

text \<open>
  A state of two units for concrete evaluation: the parameter cell for \<open>num = 2\<close>, the
  first unit at rest and the second above the threshold.
\<close>

definition example :: program where
  "example = \<lparr>env = parameters 2, group = (LIF_init (parameters 2) 2)\<lparr>V := [0, 2]\<rparr>\<rparr>"

subsection \<open>Invariants of the runs\<close>

text \<open>
  What holds in every state of the script's simulation for \<open>n\<close> units: the parameters
  and the integrator are those of the start, and no potential is negative.
\<close>

definition script_inv :: "nat \<Rightarrow> program \<Rightarrow> bool" where
  "script_inv n p \<longleftrightarrow>
     env p = parameters n
     \<and> integral (group p) = odeint (dt (parameters n)) (derivative (parameters n))
     \<and> length (V (group p)) = n
     \<and> (\<forall>v\<in>set (V (group p)). 0 \<le> v)"

text \<open>
  What holds after \<open>k\<close> steps of the scenario: the unit is below the threshold, and
  either a spike has been recorded or the potential has grown by 1/500 per step.
\<close>

definition scenario_inv :: "nat \<Rightarrow> program \<Rightarrow> trace \<Rightarrow> bool" where
  "scenario_inv k q tr \<longleftrightarrow>
     env q = scenario
     \<and> integral (group q) = odeint (dt scenario) (derivative scenario)
     \<and> length (spike (group q)) = 1
     \<and> (case V (group q) of
          [v] \<Rightarrow> v < 1 \<and> (raster_plot tr \<noteq> [] \<or> (k < 500 \<and> real k / 500 \<le> v))
        | _ \<Rightarrow> False)"

section \<open>Construction\<close>

text \<open>
  C9. A group constructed for any size holds a potential vector and a spike indicator
  vector that are both all zero and as long as the unit count; so every initial potential
  is the reset value \<open>Vr = 0\<close> of the script, and no unit is marked as spiking.
\<close>

theorem LIF_init_all_zero:
  "V (LIF_init g sz) = replicate sz 0
   \<and> spike (LIF_init g sz) = replicate sz 0
   \<and> length (V (LIF_init g sz)) = sz
   \<and> length (spike (LIF_init g sz)) = sz
   \<and> V (LIF_init g sz) = replicate sz (Vr script)
   \<and> filter (\<lambda>s. 0 < s) (spike (LIF_init g sz)) = []"
  by (simp add: LIF_init_def zeros_def script_def parameters_def)

section \<open>One call of the update rule\<close>

lemma broadcast2_same_length:
  "length xs = length ys \<Longrightarrow> broadcast2 f xs ys = Inr (map2 f xs ys)"
  by (simp add: broadcast2_def)

lemma map2_map_same: "map2 f (map h xs) xs = map (\<lambda>x. f (h x) x) xs"
  by (induction xs) simp_all

lemma indicator_positive:
  "map (\<lambda>s. (0::real) < s) (asarray_float (map (\<lambda>v. th \<le> v) xs)) = map (\<lambda>v. th \<le> v) xs"
  by (simp add: asarray_float_def)

text \<open>
  When the integrator returns a candidate as long as both state collections, the call
  succeeds and its result is known in closed form.
\<close>

lemma update_eq:
  assumes "integral (group p) (V (group p)) t = Inr V1"
    and "length V1 = length (spike (group p))"
    and "length V1 = length (V (group p))"
  shows "update p t d =
     Inr (p\<lparr>group := (group p)\<lparr>spike := map (\<lambda>v. if Vth (env p) \<le> v then 1 else 0) V1,
                                V := map (\<lambda>v. if Vth (env p) \<le> v then Vr (env p) else v) V1\<rparr>\<rparr>)"
  using assms
  by (simp add: update_def Variable_update_def where_scalar_def broadcast2_same_length
      indicator_positive map2_map_same) (simp add: asarray_float_def comp_def)

text \<open>Conversely, a call that succeeds went through such a candidate.\<close>

lemma update_Inr_D:
  assumes "update p t d = Inr p'"
  obtains V1 where "integral (group p) (V (group p)) t = Inr V1"
    and "length V1 = length (spike (group p))"
    and "length V1 = length (V (group p))"
  using assms
  by (auto simp: update_def Variable_update_def where_scalar_def broadcast2_def asarray_float_def
      split: sum.splits if_splits)

lemma update_cases:
  assumes "update p t d = Inr p'"
  obtains V1 where "integral (group p) (V (group p)) t = Inr V1"
    and "length V1 = length (spike (group p))"
    and "length V1 = length (V (group p))"
    and "p' = p\<lparr>group := (group p)\<lparr>spike := map (\<lambda>v. if Vth (env p) \<le> v then 1 else 0) V1,
                                V := map (\<lambda>v. if Vth (env p) \<le> v then Vr (env p) else v) V1\<rparr>\<rparr>"
proof -
  from assms obtain V1 where h: "integral (group p) (V (group p)) t = Inr V1"
    "length V1 = length (spike (group p))" "length V1 = length (V (group p))"
    by (rule update_Inr_D)
  from update_eq [OF h, of d] assms that [OF h] show thesis by simp
qed

text \<open>The two-unit state, evaluated at time 0.\<close>

lemma linspace_2: "linspace 2 4 2 = [2, 4]"
  by (simp add: linspace_def upt_rec)

lemma integral_example:
  "integral (group example) (V (group example)) 0 = Inr [1 / 500, 1001 / 500]"
  by (simp add: example_def LIF_init_def odeint_def derivative_def broadcast2_def
      parameters_def linspace_2)

lemma update_example:
  "update example 0 d =
     Inr (example\<lparr>group := (group example)\<lparr>spike := [0, 1], V := [1 / 500, 0]\<rparr>\<rparr>)"
proof -
  have "update example 0 d =
     Inr (example\<lparr>group := (group example)
       \<lparr>spike := map (\<lambda>v. if Vth (env example) \<le> v then 1 else 0) [1 / 500, 1001 / 500],
        V := map (\<lambda>v. if Vth (env example) \<le> v then Vr (env example) else v)
               [1 / 500, 1001 / 500]\<rparr>\<rparr>)"
    by (rule update_eq [OF integral_example]) (simp_all add: example_def LIF_init_def zeros_def)
  then show ?thesis
    by (simp add: example_def parameters_def)
qed

text \<open>
  C1. For every potential vector and time, one call of \<open>update\<close> takes the candidate
  \<open>V1\<close> that the integrator returns for the current potentials, sets the spike indicator
  elementwise to 1 where \<open>V1 \<ge> Vth\<close> and to 0 elsewhere, and sets the next potential
  elementwise to \<open>Vr\<close> where the indicator is set and to the candidate elsewhere; a unit
  whose indicator is 1 holds exactly \<open>Vr\<close> at the end of the call. The call succeeds
  whenever the candidate is as long as the two state collections.
\<close>

theorem update_threshold_reset:
  assumes "integral (group p) (V (group p)) t = Inr V1"
    and "length V1 = length (V (group p))"
    and "length (spike (group p)) = length (V (group p))"
  shows "\<exists>p'. update p t d = Inr p'
     \<and> spike (group p') = map (\<lambda>v. if Vth (env p) \<le> v then 1 else 0) V1
     \<and> V (group p') = map2 (\<lambda>s v. if 0 < s then Vr (env p) else v) (spike (group p')) V1
     \<and> (\<forall>i<length V1. spike (group p') ! i = 1 \<longrightarrow> V (group p') ! i = Vr (env p))"
proof -
  let ?sp = "map (\<lambda>v. if Vth (env p) \<le> v then 1 else (0::real)) V1"
  let ?V2 = "map (\<lambda>v. if Vth (env p) \<le> v then Vr (env p) else v) V1"
  let ?p' = "p\<lparr>group := (group p)\<lparr>spike := ?sp, V := ?V2\<rparr>\<rparr>"
  have "update p t d = Inr ?p'"
    using assms by (simp add: update_eq)
  moreover have "?V2 = map2 (\<lambda>s v. if 0 < s then Vr (env p) else v) ?sp V1"
    by (simp add: map2_map_same)
  moreover have "\<forall>i<length V1. ?sp ! i = 1 \<longrightarrow> ?V2 ! i = Vr (env p)"
    by simp
  ultimately show ?thesis by simp
qed

theorem update_threshold_reset_witness:
  "\<exists>p'. update example 0 (1 / 10) = Inr p'
     \<and> spike (group p') = [0, 1] \<and> V (group p') = [1 / 500, 0]"
proof -
  have h: "integral (group example) (V (group example)) 0 = Inr [1 / 500, 1001 / 500]"
    by (rule integral_example)
  have l1: "length [1 / 500, 1001 / 500 :: real] = length (V (group example))"
    by (simp add: example_def)
  have l2: "length (spike (group example)) = length (V (group example))"
    by (simp add: example_def LIF_init_def zeros_def)
  from update_threshold_reset [OF h l1 l2, of "1 / 10"]
  show ?thesis
    by (auto simp: example_def parameters_def)
qed

text \<open>
  C5. After every update step each entry of the spike indicator vector is 0 or 1.
\<close>

theorem update_spike_binary:
  assumes "update p t d = Inr p'"
  shows "set (spike (group p')) \<subseteq> {0, 1}"
  using assms by (elim update_cases) auto

theorem update_spike_binary_witness:
  "\<exists>p'. update example 0 (1 / 10) = Inr p' \<and> spike (group p') = [0, 1]
     \<and> set (spike (group p')) \<subseteq> {0, 1}"
  using update_spike_binary [OF update_example [of "1 / 10"]] update_example [of "1 / 10"]
  by simp

text \<open>
  C10. When \<open>Vr < Vth\<close>, every unit's potential is strictly below \<open>Vth\<close> after an
  update step: a unit that crossed the threshold was reset to \<open>Vr\<close>, and the candidate
  of a unit that did not cross is below \<open>Vth\<close>.
\<close>

theorem update_below_threshold:
  assumes "Vr (env p) < Vth (env p)" and "update p t d = Inr p'"
  shows "\<forall>v\<in>set (V (group p')). v < Vth (env p)"
  using assms(2,1) by (elim update_cases) auto

theorem update_below_threshold_witness:
  "Vr (env example) < Vth (env example)
   \<and> (\<exists>p'. update example 0 (1 / 10) = Inr p' \<and> V (group p') = [1 / 500, 0]
        \<and> list_all (\<lambda>v. v < Vth (env example)) (V (group p')))"
proof -
  have h: "Vr (env example) < Vth (env example)"
    by (simp add: example_def parameters_def)
  from update_below_threshold [OF h update_example [of "1 / 10"]] h update_example [of "1 / 10"]
  show ?thesis by (simp add: list_all_iff)
qed

section \<open>The right-hand side\<close>

text \<open>
  C2. The right-hand side that the constructor hands to the integrator is, for every
  unit \<open>i\<close>, potential vector and time, \<open>(-V[i] + inputs[i] + 2 sin(2 pi t / tau)) / tau\<close>;
  the period of the oscillation is the time constant \<open>tau\<close>. The potential vector is as
  long as the drive vector.
\<close>

theorem derivative_elementwise:
  assumes "length V0 = length (inputs g)"
  shows "\<exists>dV. derivative g V0 t = Inr dV \<and> length dV = length V0
     \<and> (\<forall>i<length V0. dV ! i = (- (V0 ! i) + inputs g ! i + 2 * sin (2 * pi * t / tau g)) / tau g)
     \<and> integral (LIF_init g sz) = odeint (dt g) (derivative g)"
  using assms by (simp add: derivative_def broadcast2_same_length LIF_init_def)

theorem derivative_elementwise_witness:
  "length [0, 2 :: real] = length (inputs (parameters 2))
   \<and> derivative (parameters 2) [0, 2] 0 = Inr [1 / 50, 1 / 50]"
proof -
  have h: "length [0, 2 :: real] = length (inputs (parameters 2))"
    by (simp add: parameters_def linspace_2)
  from derivative_elementwise [OF h, of 0 0] obtain dV where
    d: "derivative (parameters 2) [0, 2] 0 = Inr dV" "length dV = 2"
      "\<forall>i<2. dV ! i = (- ([0, 2] ! i) + inputs (parameters 2) ! i
          + 2 * sin (2 * pi * 0 / tau (parameters 2))) / tau (parameters 2)"
    by auto
  from d(3) [rule_format, of 0] d(3) [rule_format, of 1]
  have "dV ! 0 = 1 / 50" "dV ! 1 = 1 / 50"
    by (simp_all add: parameters_def linspace_2)
  with d(2) have "dV = [1 / 50, 1 / 50]"
    by (cases dV; cases "tl dV"; cases "tl (tl dV)") auto
  with d(1) h show ?thesis by simp
qed

section \<open>Spike phases\<close>

lemma remainder_phase: "0 < b \<Longrightarrow> remainder t b / b = frac (t / b)"
  by (simp add: remainder_def frac_def field_simps)

text \<open>
  C8. For a spike recorded at a time \<open>t \<ge> 0\<close> and a positive period, the phase
  \<open>(t mod period) / period\<close> lies in the half-open interval from 0 to 1.
\<close>

theorem spike_phases_range:
  assumes "0 < tau g" and "i < length ts" and "0 \<le> ts ! i"
  shows "0 \<le> spike_phases g ts ! i \<and> spike_phases g ts ! i < 1"
  using assms by (simp add: spike_phases_def remainder_phase frac_lt_1)

theorem spike_phases_range_witness:
  "0 < tau script \<and> (0::nat) < length [250 :: real] \<and> (0::real) \<le> [250] ! 0
   \<and> spike_phases script [250] ! 0 = 1 / 2
   \<and> 0 \<le> spike_phases script [250] ! 0 \<and> spike_phases script [250] ! 0 < 1"
proof -
  have h: "0 < tau script" by (simp add: script_def parameters_def)
  have v: "spike_phases script [250] ! 0 = 1 / 2"
    by (simp add: spike_phases_def remainder_def script_def parameters_def)
  from spike_phases_range [OF h, of 0 "[250]"] v h show ?thesis by simp
qed

section \<open>What a step leaves alone\<close>

lemma update_frame:
  assumes "update p t d = Inr p'"
  shows "p' = p\<lparr>group := (group p)\<lparr>spike := spike (group p'), V := V (group p')\<rparr>\<rparr>
     \<and> env p' = env p \<and> integral (group p') = integral (group p)"
  using assms by (elim update_cases) simp

lemma reachable_frame:
  assumes "reachable p0 p"
  shows "env p = env p0 \<and> integral (group p) = integral (group p0)"
  using assms
proof (induction rule: reachable.induct)
  case initial
  show ?case by simp
next
  case (step p t d p')
  from update_frame [OF step.hyps(2)] step.IH show ?case by simp
qed

text \<open>
  C6. A call of \<open>update\<close> changes the potential vector and the spike indicator vector
  and nothing else: in every state that a run goes through, the state after the call is
  the state before it with these two collections replaced; the drive vector is the same
  before and after the call, and the same as at the start of the run.
\<close>

theorem update_only_state:
  assumes "reachable p0 p" and "update p t d = Inr p'"
  shows "p' = p\<lparr>group := (group p)\<lparr>spike := spike (group p'), V := V (group p')\<rparr>\<rparr>
     \<and> inputs (env p') = inputs (env p)
     \<and> inputs (env p') = inputs (env p0)
     \<and> env p' = env p0
     \<and> integral (group p') = integral (group p0)"
proof -
  have "reachable p0 p'"
    using assms by (rule reachable.step)
  from reachable_frame [OF this] reachable_frame [OF assms(1)] update_frame [OF assms(2)]
  show ?thesis by simp
qed

theorem update_only_state_witness:
  "reachable example example
   \<and> (\<exists>p'. update example 0 (1 / 10) = Inr p' \<and> V (group p') = [1 / 500, 0]
        \<and> inputs (env p') = [2, 4] \<and> inputs (env example) = [2, 4])"
proof -
  have r: "reachable example example" by (rule reachable.initial)
  have i: "inputs (env example) = [2, 4]"
    by (simp add: example_def parameters_def linspace_2)
  from update_only_state [OF r update_example [of "1 / 10"]] r i update_example [of "1 / 10"]
  show ?thesis by simp
qed

text \<open>The states of a run of the driver are among these states.\<close>

lemma run_reachable:
  "run p n = Inr (q, tr) \<Longrightarrow> reachable p q"
proof (induction n arbitrary: q tr)
  case 0
  then show ?case by (simp add: reachable.initial)
next
  case (Suc n)
  then show ?case
    by (auto split: sum.splits prod.splits intro: reachable.step)
qed

section \<open>The potential stays at or above the reset value\<close>

lemma length_linspace: "length (linspace a b n) = n"
  by (simp add: linspace_def)

lemma linspace_lower:
  assumes "a \<le> b" and "x \<in> set (linspace a b n)"
  shows "a \<le> x"
proof (cases "n = 1")
  case True
  with assms show ?thesis by (simp add: linspace_def)
next
  case False
  with assms have "x \<in> (\<lambda>i. a + real i * ((b - a) / real (n - 1))) ` {0..<n}"
    by (simp add: linspace_def)
  then obtain i where "x = a + real i * ((b - a) / real (n - 1))"
    by blast
  moreover have "0 \<le> real i * ((b - a) / real (n - 1))"
    using assms(1) by simp
  ultimately show ?thesis by simp
qed

text \<open>The integrator of a constructed group, on a potential vector as long as the drive vector.\<close>

lemma map2_euler:
  "length xs = length ys \<Longrightarrow>
   map2 (+) xs (map (\<lambda>d. h * d) (map (\<lambda>x. (x + c) / k) (map2 (+) (map uminus xs) ys))) =
   map2 (\<lambda>v i. v + h * ((- v + i + c) / k)) xs (ys :: real list)"
  by (induction xs ys rule: list_induct2) simp_all

lemma euler_step:
  assumes "length V0 = length (inputs g)"
  shows "odeint (dt g) (derivative g) V0 t =
     Inr (map2 (\<lambda>v i. v + dt g * ((- v + i + 2 * sin (2 * pi * t / tau g)) / tau g)) V0 (inputs g))"
  using assms map2_euler [OF assms, of "dt g" "2 * sin (2 * pi * t / tau g)" "tau g"]
  by (simp add: odeint_def derivative_def broadcast2_same_length)

text \<open>One Euler step of a unit of the script keeps a potential that is not negative.\<close>

lemma unit_step_nonneg:
  fixes v i x :: real
  assumes "0 \<le> v" and "2 \<le> i"
  shows "0 \<le> v + (1 / 10) * ((- v + i + 2 * sin x) / 100)"
proof -
  have "- 1 \<le> sin x" by (rule sin_ge_minus_one)
  with assms have "0 \<le> 999 * v + i + 2 * sin x" by linarith
  then have "0 \<le> (999 * v + i + 2 * sin x) / 1000" by simp
  also have "(999 * v + i + 2 * sin x) / 1000 = v + (1 / 10) * ((- v + i + 2 * sin x) / 100)"
    by (simp add: field_simps)
  finally show ?thesis .
qed

lemma script_inv_start: "script_inv n (start (parameters n))"
  by (simp add: script_inv_def start_def LIF_init_def zeros_def parameters_def)

lemma script_inv_update:
  assumes "script_inv n p" and "update p t d = Inr p'"
  shows "script_inv n p'"
proof -
  let ?g = "parameters n"
  from assms(1) have e: "env p = ?g" and i: "integral (group p) = odeint (dt ?g) (derivative ?g)"
    and l: "length (V (group p)) = n" and nn: "\<forall>v\<in>set (V (group p)). 0 \<le> v"
    by (simp_all add: script_inv_def)
  have li: "length (V (group p)) = length (inputs ?g)"
    using l by (simp add: parameters_def length_linspace)
  let ?V1 = "map2 (\<lambda>v i. v + dt ?g * ((- v + i + 2 * sin (2 * pi * t / tau ?g)) / tau ?g))
               (V (group p)) (inputs ?g)"
  have c: "integral (group p) (V (group p)) t = Inr ?V1"
    unfolding i by (rule euler_step [OF li])
  have pos: "\<forall>x\<in>set ?V1. 0 \<le> x"
  proof
    fix x assume "x \<in> set ?V1"
    then obtain v j where vj: "(v, j) \<in> set (zip (V (group p)) (inputs ?g))"
      and x: "x = v + dt ?g * ((- v + j + 2 * sin (2 * pi * t / tau ?g)) / tau ?g)"
      by auto
    from vj have "v \<in> set (V (group p))" and "j \<in> set (linspace 2 4 n)"
      by (auto dest: set_zip_leftD set_zip_rightD simp: parameters_def)
    with nn have "0 \<le> v" and "2 \<le> j"
      by (auto intro: linspace_lower [of 2 4])
    from unit_step_nonneg [OF this] x show "0 \<le> x"
      by (simp add: parameters_def)
  qed
  from assms(2) c obtain "p' = p\<lparr>group := (group p)
      \<lparr>spike := map (\<lambda>v. if Vth (env p) \<le> v then 1 else 0) ?V1,
       V := map (\<lambda>v. if Vth (env p) \<le> v then Vr (env p) else v) ?V1\<rparr>\<rparr>"
    and "length ?V1 = length (V (group p))"
    by (elim update_cases) simp
  with e i l pos show ?thesis
    by (auto simp: script_inv_def parameters_def)
qed

lemma reachable_script_inv:
  assumes "reachable (start (parameters n)) p"
  shows "script_inv n p"
  using assms
  by (induction rule: reachable.induct) (auto intro: script_inv_start script_inv_update)

text \<open>
  C4. In every state that the simulation of the script reaches from its initial state,
  by any number of update steps at any times and for any population size, the potential
  of every unit is at least \<open>Vr\<close>: no update leaves a potential below the reset value.
\<close>

theorem potential_not_below_reset:
  assumes "reachable (start (parameters n)) p"
  shows "\<forall>v\<in>set (V (group p)). Vr (env p) \<le> v"
  using reachable_script_inv [OF assms]
  by (simp add: script_inv_def parameters_def)

lemma zeros_2: "zeros 2 = [0, 0]"
  by (simp add: zeros_def numeral_2_eq_2)

lemma update_start_2:
  "update (start (parameters 2)) 0 d =
     Inr ((start (parameters 2))\<lparr>group := (group (start (parameters 2)))
            \<lparr>spike := [0, 0], V := [1 / 500, 1 / 250]\<rparr>\<rparr>)"
proof -
  have "integral (group (start (parameters 2))) (V (group (start (parameters 2)))) 0 =
      Inr [1 / 500, 1 / 250]"
    by (simp add: start_def LIF_init_def zeros_2 odeint_def derivative_def broadcast2_def
        parameters_def linspace_2)
  from update_eq [OF this, of d] show ?thesis
    by (simp add: start_def LIF_init_def zeros_2 parameters_def)
qed

theorem potential_not_below_reset_witness:
  "\<exists>p. reachable (start (parameters 2)) p \<and> V (group p) = [1 / 500, 1 / 250]
     \<and> list_all (\<lambda>v. Vr (env p) \<le> v) (V (group p))"
proof -
  let ?p = "(start (parameters 2))\<lparr>group := (group (start (parameters 2)))
            \<lparr>spike := [0, 0], V := [1 / 500, 1 / 250]\<rparr>\<rparr>"
  have r: "reachable (start (parameters 2)) ?p"
    by (rule reachable.step [OF reachable.initial update_start_2 [of "1 / 10"]])
  from potential_not_below_reset [OF r] r show ?thesis
    by (intro exI [of _ ?p]) (simp add: list_all_iff)
qed

section \<open>The end-to-end scenario\<close>

lemma raster_plot_snoc:
  "raster_plot (tr @ [(t, sp)]) =
     raster_plot tr @ map (\<lambda>i. (i, t)) (filter (\<lambda>i. 0 < sp ! i) [0..<length sp])"
  by (simp add: raster_plot_def)

lemma scenario_update:
  assumes "env p = scenario"
    and "integral (group p) = odeint (dt scenario) (derivative scenario)"
    and "V (group p) = [v]" and "length (spike (group p)) = 1"
  shows "update p t d =
     Inr (p\<lparr>group := (group p)
       \<lparr>spike := [if 1 \<le> v + (1 / 10) * ((- v + 3 + 2 * sin (2 * pi * t / 100)) / 100) then 1 else 0],
        V := [if 1 \<le> v + (1 / 10) * ((- v + 3 + 2 * sin (2 * pi * t / 100)) / 100) then 0
              else v + (1 / 10) * ((- v + 3 + 2 * sin (2 * pi * t / 100)) / 100)]\<rparr>\<rparr>)"
proof -
  have l: "length [v] = length (inputs scenario)"
    by (simp add: scenario_def)
  have "integral (group p) (V (group p)) t =
      Inr [v + (1 / 10) * ((- v + 3 + 2 * sin (2 * pi * t / 100)) / 100)]"
    unfolding assms(2,3) euler_step [OF l] by (simp add: scenario_def)
  from update_eq [OF this, of d] assms show ?thesis
    by (simp add: scenario_def)
qed

text \<open>
  While the oscillation is in its first half period, a potential below the threshold
  gains at least 1/500 per step.
\<close>

lemma scenario_drive:
  fixes v x :: real
  assumes "v < 1" and "0 \<le> sin x"
  shows "v + 1 / 500 \<le> v + (1 / 10) * ((- v + 3 + 2 * sin x) / 100)"
proof -
  from assms have "1000 * v + 2 \<le> 999 * v + 3 + 2 * sin x" by linarith
  then have "(1000 * v + 2) / 1000 \<le> (999 * v + 3 + 2 * sin x) / 1000" by simp
  moreover have "(1000 * v + 2) / 1000 = v + 1 / 500" by (simp add: field_simps)
  moreover have "(999 * v + 3 + 2 * sin x) / 1000 = v + (1 / 10) * ((- v + 3 + 2 * sin x) / 100)"
    by (simp add: field_simps)
  ultimately show ?thesis by simp
qed

lemma first_half_period:
  assumes "k < 500"
  shows "0 \<le> sin (2 * pi * (real k * (1 / 10)) / 100)"
proof (rule sin_ge_zero)
  show "0 \<le> 2 * pi * (real k * (1 / 10)) / 100" by simp
  have "2 * pi * (real k * (1 / 10)) / 100 = pi * (real k / 500)" by simp
  also have "\<dots> \<le> pi * 1"
    using assms by (intro mult_left_mono) simp_all
  finally show "2 * pi * (real k * (1 / 10)) / 100 \<le> pi" by simp
qed

lemma scenario_inv_start: "scenario_inv 0 (start scenario) []"
  by (simp add: scenario_inv_def start_def LIF_init_def zeros_def scenario_def)

lemma scenario_inv_step:
  assumes "scenario_inv k q tr"
  shows "\<exists>q'. update q (real k * dt (env q)) (dt (env q)) = Inr q'
    \<and> scenario_inv (Suc k) q' (tr @ [(real k * dt (env q), spike (group q'))])"
proof -
  from assms obtain v where e: "env q = scenario"
    and i: "integral (group q) = odeint (dt scenario) (derivative scenario)"
    and s: "length (spike (group q)) = 1" and v: "V (group q) = [v]" and v1: "v < 1"
    and d: "raster_plot tr \<noteq> [] \<or> (k < 500 \<and> real k / 500 \<le> v)"
    by (auto simp: scenario_inv_def split: list.splits)
  have dt: "dt (env q) = 1 / 10" by (simp add: e scenario_def)
  let ?t = "real k * (1 / 10)"
  let ?v = "v + (1 / 10) * ((- v + 3 + 2 * sin (2 * pi * ?t / 100)) / 100)"
  let ?q = "q\<lparr>group := (group q)\<lparr>spike := [if 1 \<le> ?v then 1 else 0],
                                   V := [if 1 \<le> ?v then 0 else ?v]\<rparr>\<rparr>"
  have u: "update q ?t (1 / 10) = Inr ?q"
    by (rule scenario_update [OF e i v s])
  have "raster_plot (tr @ [(?t, [if 1 \<le> ?v then 1 else 0])]) \<noteq> []
      \<or> (Suc k < 500 \<and> real (Suc k) / 500 \<le> (if 1 \<le> ?v then 0 else ?v))"
  proof (cases "raster_plot tr = []")
    case False
    then show ?thesis by (simp add: raster_plot_snoc)
  next
    case True
    with d have k: "k < 500" and kv: "real k / 500 \<le> v" by simp_all
    from scenario_drive [OF v1 first_half_period [OF k]] kv
    have g: "real (Suc k) / 500 \<le> ?v" by (simp add: field_simps)
    show ?thesis
    proof (cases "1 \<le> ?v")
      case True
      then show ?thesis by (simp add: raster_plot_snoc)
    next
      case False
      with g have "real (Suc k) / 500 < 1" by linarith
      then have "Suc k < 500" by simp
      with g False show ?thesis by simp
    qed
  qed
  then have inv: "scenario_inv (Suc k) ?q (tr @ [(?t, spike (group ?q))])"
    using e i by (simp add: scenario_inv_def)
  show ?thesis
    unfolding dt by (rule exI [of _ ?q]) (rule conjI [OF u inv])
qed

lemma scenario_run:
  "\<exists>q tr. run (start scenario) k = Inr (q, tr) \<and> scenario_inv k q tr"
proof (induction k)
  case 0
  show ?case by (simp add: scenario_inv_start)
next
  case (Suc k)
  then obtain q tr where r: "run (start scenario) k = Inr (q, tr)" and "scenario_inv k q tr"
    by blast
  from scenario_inv_step [OF this(2)] r show ?case by auto
qed

text \<open>Every event of a trace comes from a step whose candidate reached the threshold.\<close>

lemma run_events:
  assumes "run p n = Inr (q, tr)" and "(i, t) \<in> set (raster_plot tr)"
  shows "\<exists>k<n. \<exists>q' tr' V1. run p k = Inr (q', tr') \<and> t = real k * dt (env q')
     \<and> integral (group q') (V (group q')) t = Inr V1 \<and> i < length V1 \<and> Vth (env q') \<le> V1 ! i"
  using assms
proof (induction n arbitrary: q tr)
  case 0
  then show ?case by (simp add: raster_plot_def)
next
  case (Suc n)
  from Suc.prems(1) obtain q0 tr0 where r: "run p n = Inr (q0, tr0)"
    and u: "update q0 (real n * dt (env q0)) (dt (env q0)) = Inr q"
    and tr: "tr = tr0 @ [(real n * dt (env q0), spike (group q))]"
    by (auto split: sum.splits prod.splits)
  show ?case
  proof (cases "(i, t) \<in> set (raster_plot tr0)")
    case True
    from Suc.IH [OF r True] show ?thesis
      using less_Suc_eq by blast
  next
    case False
    with Suc.prems(2) tr have t: "t = real n * dt (env q0)"
      and i: "i < length (spike (group q))" and pos: "0 < spike (group q) ! i"
      by (auto simp: raster_plot_snoc)
    from u obtain V1 where c: "integral (group q0) (V (group q0)) (real n * dt (env q0)) = Inr V1"
      and q: "q = q0\<lparr>group := (group q0)\<lparr>spike := map (\<lambda>v. if Vth (env q0) \<le> v then 1 else 0) V1,
                V := map (\<lambda>v. if Vth (env q0) \<le> v then Vr (env q0) else v) V1\<rparr>\<rparr>"
      by (elim update_cases)
    from i pos q have "i < length V1" and "Vth (env q0) \<le> V1 ! i"
      by (auto split: if_splits)
    with r t c show ?thesis by blast
  qed
qed

text \<open>
  C3. With one unit, drive 3, \<open>tau = 100\<close> (also the period), \<open>Vth = 1\<close>, \<open>Vr = 0\<close> and
  step 0.1, a run of 1000 steps completes and records at least one spike event, and every
  recorded event \<open>(i, t)\<close> belongs to a step \<open>k < 1000\<close> at time \<open>t = k dt\<close> on which the
  integrated potential of the unit, before the reset, was at least 1.
\<close>

theorem scenario_spikes:
  "\<exists>q tr. run (start scenario) 1000 = Inr (q, tr) \<and> raster_plot tr \<noteq> []
     \<and> (\<forall>(i, t)\<in>set (raster_plot tr). \<exists>k<1000. \<exists>q' tr' V1.
           run (start scenario) k = Inr (q', tr') \<and> t = real k * (1 / 10)
           \<and> integral (group q') (V (group q')) t = Inr V1 \<and> i < length V1 \<and> 1 \<le> V1 ! i)"
proof -
  from scenario_run [of 1000] obtain q tr where r: "run (start scenario) 1000 = Inr (q, tr)"
    and inv: "scenario_inv 1000 q tr"
    by blast
  from inv have ne: "raster_plot tr \<noteq> []"
    by (auto simp: scenario_inv_def split: list.splits)
  have "\<exists>k<1000. \<exists>q' tr' V1.
           run (start scenario) k = Inr (q', tr') \<and> t = real k * (1 / 10)
           \<and> integral (group q') (V (group q')) t = Inr V1 \<and> i < length V1 \<and> 1 \<le> V1 ! i"
    if "(i, t) \<in> set (raster_plot tr)" for i t
  proof -
    from run_events [OF r that] obtain k q' tr' V1 where k: "k < 1000"
      and rk: "run (start scenario) k = Inr (q', tr')" and t: "t = real k * dt (env q')"
      and c: "integral (group q') (V (group q')) t = Inr V1" "i < length V1" "Vth (env q') \<le> V1 ! i"
      by blast
    from scenario_run [of k] rk have "env q' = scenario"
      by (simp add: scenario_inv_def)
    with k rk t c show ?thesis
      by (auto simp: scenario_def)
  qed
  with r ne show ?thesis by blast
qed

text \<open>The first step of the scenario, evaluated: the unit rises to 3/1000 and is silent.\<close>

lemma run_scenario_1: "map_sum id snd (run (start scenario) 1) = Inr [(0, [0])]"
proof -
  have "update (start scenario) 0 d =
      Inr ((start scenario)\<lparr>group := (group (start scenario))\<lparr>spike := [0], V := [3 / 1000]\<rparr>\<rparr>)"
    for d
    using scenario_update [of "start scenario" 0 0 d]
    by (simp add: start_def LIF_init_def zeros_def scenario_def)
  then show ?thesis by simp
qed

theorem scenario_spikes_witness:
  "map_sum id snd (run (start scenario) 1) = Inr [(0, [0])]
   \<and> (\<exists>q tr i t k q' tr' V1. run (start scenario) 1000 = Inr (q, tr)
     \<and> (i, t) \<in> set (raster_plot tr) \<and> k < 1000
     \<and> run (start scenario) k = Inr (q', tr') \<and> t = real k * (1 / 10)
     \<and> integral (group q') (V (group q')) t = Inr V1 \<and> i < length V1 \<and> 1 \<le> V1 ! i)"
proof -
  from scenario_spikes obtain q tr where r: "run (start scenario) 1000 = Inr (q, tr)"
    and ne: "raster_plot tr \<noteq> []"
    and a: "\<forall>(i, t)\<in>set (raster_plot tr). \<exists>k<1000. \<exists>q' tr' V1.
           run (start scenario) k = Inr (q', tr') \<and> t = real k * (1 / 10)
           \<and> integral (group q') (V (group q')) t = Inr V1 \<and> i < length V1 \<and> 1 \<le> V1 ! i"
    by blast
  from ne obtain i t where m: "(i, t) \<in> set (raster_plot tr)"
    by (cases "raster_plot tr") auto
  with a have "\<exists>k<1000. \<exists>q' tr' V1.
           run (start scenario) k = Inr (q', tr') \<and> t = real k * (1 / 10)
           \<and> integral (group q') (V (group q')) t = Inr V1 \<and> i < length V1 \<and> 1 \<le> V1 ! i"
    by fast
  then obtain k q' tr' V1 where "k < 1000" "run (start scenario) k = Inr (q', tr')"
    "t = real k * (1 / 10)" "integral (group q') (V (group q')) t = Inr V1"
    "i < length V1" "1 \<le> V1 ! i"
    by blast
  with r m have "\<exists>q tr i t k q' tr' V1. run (start scenario) 1000 = Inr (q, tr)
     \<and> (i, t) \<in> set (raster_plot tr) \<and> k < 1000
     \<and> run (start scenario) k = Inr (q', tr') \<and> t = real k * (1 / 10)
     \<and> integral (group q') (V (group q')) t = Inr V1 \<and> i < length V1 \<and> 1 \<le> V1 ! i"
    by blast
  with run_scenario_1 show ?thesis by (rule conjI)
qed

end
